theory Spec2Isabelle
  imports Complex_Main
begin

section \<open>The rope simulator (rope\_simulator.py)\<close>

text \<open>
  The program keeps four module-level fields of shape \<open>n_particles\<close> (positions,
  velocities, forces, inverse masses) and three kernels that mutate them:
  \<open>initialize_particles\<close>, \<open>compute_forces\<close> and \<open>integrate\<close>. The \<open>main\<close> loop
  runs ten force/integration pairs per frame unless paused.

  Numbers are modelled as exact reals: the 32-bit rounding of the fields is outside the
  model. A division whose divisor is zero is the error \<open>DivisionByZero\<close>, so that the
  absence of such a division is a property that can be proved. The iterations of each
  kernel loop are run in index order; an iteration reads positions, velocities and inverse
  masses that no iteration of the same loop writes at another index, and accumulates into
  the force buffer by addition only.
\<close>

subsection \<open>Two-dimensional vectors\<close>

type_synonym vec2 = "real \<times> real"

datatype error = DivisionByZero

definition vadd :: "vec2 \<Rightarrow> vec2 \<Rightarrow> vec2" where
  "vadd a b = (fst a + fst b, snd a + snd b)"

definition vsub :: "vec2 \<Rightarrow> vec2 \<Rightarrow> vec2" where
  "vsub a b = (fst a - fst b, snd a - snd b)"

definition vneg :: "vec2 \<Rightarrow> vec2" where
  "vneg a = (- fst a, - snd a)"

text \<open>\<open>c * v\<close>, scalar on the left.\<close>

definition smul :: "real \<Rightarrow> vec2 \<Rightarrow> vec2" where
  "smul c v = (c * fst v, c * snd v)"

text \<open>\<open>v * c\<close>, scalar on the right.\<close>

definition vscale :: "vec2 \<Rightarrow> real \<Rightarrow> vec2" where
  "vscale v c = (fst v * c, snd v * c)"

definition vdot :: "vec2 \<Rightarrow> vec2 \<Rightarrow> real" where
  "vdot a b = fst a * fst b + snd a * snd b"

definition vnorm :: "vec2 \<Rightarrow> real" where
  "vnorm a = sqrt (fst a * fst a + snd a * snd a)"

definition fdiv :: "real \<Rightarrow> real \<Rightarrow> error + real" where
  "fdiv a b = (if b = 0 then Inl DivisionByZero else Inr (a / b))"

text \<open>\<open>v / c\<close>, componentwise.\<close>

definition vdiv :: "vec2 \<Rightarrow> real \<Rightarrow> error + vec2" where
  "vdiv v c = (if c = 0 then Inl DivisionByZero else Inr (fst v / c, snd v / c))"

subsection \<open>Global simulation parameters and fields\<close>

record params =
  n_particles :: nat
  particle_mass :: real
  stiffness :: real
  damping :: real
  rest_length :: real
  gravity :: vec2
  dt :: real

text \<open>
  \<open>n_segments = n_particles - 1\<close>. It is only used as a loop bound: for
  \<open>n_particles = 0\<close> Python's \<open>range(-1)\<close> and \<open>[0..<0]\<close> are both empty.
\<close>

definition n_segments :: "params \<Rightarrow> nat" where
  "n_segments p = n_particles p - 1"

text \<open>The values the module assigns (lines 7 to 14).\<close>

definition rope_params :: params where
  "rope_params =
     \<lparr> n_particles = 15, particle_mass = 1, stiffness = 10000, damping = 1 / 2,
       rest_length = 1 / 10, gravity = (0, - (981 / 100)), dt = 5 / 10000 \<rparr>"

record sim =
  positions :: "vec2 list"
  velocities :: "vec2 list"
  forces :: "vec2 list"
  inv_mass :: "real list"

text \<open>Every field is declared with \<open>shape=n_particles\<close>.\<close>

definition shaped :: "params \<Rightarrow> sim \<Rightarrow> bool" where
  "shaped p s \<longleftrightarrow>
     length (positions s) = n_particles p \<and> length (velocities s) = n_particles p \<and>
     length (forces s) = n_particles p \<and> length (inv_mass s) = n_particles p"

text \<open>A freshly declared field holds zeros.\<close>

definition fresh_fields :: "params \<Rightarrow> sim" where
  "fresh_fields p =
     \<lparr> positions = replicate (n_particles p) (0, 0),
       velocities = replicate (n_particles p) (0, 0),
       forces = replicate (n_particles p) (0, 0),
       inv_mass = replicate (n_particles p) 0 \<rparr>"

subsection \<open>Loops\<close>

text \<open>A \<open>for i in range(...)\<close> whose body may fail stops at the first error.\<close>

fun for_each :: "(nat \<Rightarrow> 's \<Rightarrow> error + 's) \<Rightarrow> nat list \<Rightarrow> 's \<Rightarrow> error + 's" where
  "for_each body [] s = Inr s"
| "for_each body (i # is) s =
     (case body i s of Inl e \<Rightarrow> Inl e | Inr s' \<Rightarrow> for_each body is s')"

subsection \<open>initialize\_particles\<close>

definition start_pos :: vec2 where
  "start_pos = (1 / 10, 8 / 10)"

definition init_body :: "params \<Rightarrow> nat \<Rightarrow> sim \<Rightarrow> error + sim" where
  "init_body p i s =
     (let s1 = s\<lparr>positions := (positions s)[i := vadd start_pos (real i * rest_length p, 0)]\<rparr>;
          s2 = s1\<lparr>velocities := (velocities s1)[i := (0, 0)]\<rparr>
      in if i = 0 then Inr (s2\<lparr>inv_mass := (inv_mass s2)[i := 0]\<rparr>)
         else (case fdiv 1 (particle_mass p) of
                 Inl e \<Rightarrow> Inl e
               | Inr m \<Rightarrow> Inr (s2\<lparr>inv_mass := (inv_mass s2)[i := m]\<rparr>)))"

definition initialize_particles :: "params \<Rightarrow> sim \<Rightarrow> error + sim" where
  "initialize_particles p s = for_each (init_body p) [0..<n_particles p] s"

subsection \<open>compute\_forces\<close>

definition clear_body :: "nat \<Rightarrow> sim \<Rightarrow> sim" where
  "clear_body i s = s\<lparr>forces := (forces s)[i := (0, 0)]\<rparr>"

definition gravity_body :: "params \<Rightarrow> nat \<Rightarrow> sim \<Rightarrow> sim" where
  "gravity_body p i s =
     (if inv_mass s ! i > 0
      then s\<lparr>forces := (forces s)[i := vadd (forces s ! i) (vscale (gravity p) (particle_mass p))]\<rparr>
      else s)"

definition eps :: real where
  "eps = 1 / 1000000"

definition segment_body :: "params \<Rightarrow> nat \<Rightarrow> sim \<Rightarrow> error + sim" where
  "segment_body p i s =
     (let p1_idx = i;
          p2_idx = i + 1;
          pos_p1 = positions s ! p1_idx;
          pos_p2 = positions s ! p2_idx;
          dist_vec = vsub pos_p2 pos_p1;
          current_length = vnorm dist_vec
      in if current_length > eps then
           (case vdiv dist_vec current_length of
              Inl e \<Rightarrow> Inl e
            | Inr direction_vec \<Rightarrow>
               (let spring_force_magnitude = stiffness p * (current_length - rest_length p);
                    spring_force_vec = smul spring_force_magnitude direction_vec;
                    s1 = s\<lparr>forces := (forces s)[p1_idx := vadd (forces s ! p1_idx) spring_force_vec]\<rparr>;
                    s2 = s1\<lparr>forces := (forces s1)[p2_idx := vsub (forces s1 ! p2_idx) spring_force_vec]\<rparr>;
                    vel_p1 = velocities s2 ! p1_idx;
                    vel_p2 = velocities s2 ! p2_idx;
                    relative_velocity = vsub vel_p2 vel_p1;
                    projected_relative_velocity = vdot relative_velocity direction_vec;
                    damping_force_magnitude = damping p * projected_relative_velocity;
                    damping_force_vec = smul damping_force_magnitude direction_vec;
                    s3 = s2\<lparr>forces := (forces s2)[p1_idx := vadd (forces s2 ! p1_idx) damping_force_vec]\<rparr>;
                    s4 = s3\<lparr>forces := (forces s3)[p2_idx := vsub (forces s3 ! p2_idx) damping_force_vec]\<rparr>
                in Inr s4))
         else Inr s)"

definition compute_forces :: "params \<Rightarrow> sim \<Rightarrow> error + sim" where
  "compute_forces p s =
     (let s1 = fold clear_body [0..<n_particles p] s;
          s2 = fold (gravity_body p) [0..<n_particles p] s1
      in for_each (segment_body p) [0..<n_segments p] s2)"

subsection \<open>integrate\<close>

definition integrate_body :: "params \<Rightarrow> nat \<Rightarrow> sim \<Rightarrow> sim" where
  "integrate_body p i s =
     (if inv_mass s ! i > 0 then
        (let s1 = s\<lparr>velocities :=
                     (velocities s)[i := vadd (velocities s ! i)
                                          (vscale (vscale (forces s ! i) (inv_mass s ! i)) (dt p))]\<rparr>
         in s1\<lparr>positions :=
                 (positions s1)[i := vadd (positions s1 ! i) (vscale (velocities s1 ! i) (dt p))]\<rparr>)
      else s)"

definition integrate :: "params \<Rightarrow> sim \<Rightarrow> sim" where
  "integrate p s = fold (integrate_body p) [0..<n_particles p] s"

subsection \<open>The main loop\<close>

text \<open>One pass of \<open>compute_forces()\<close> followed by \<open>integrate()\<close>.\<close>

definition substep :: "params \<Rightarrow> sim \<Rightarrow> error + sim" where
  "substep p s =
     (case compute_forces p s of Inl e \<Rightarrow> Inl e | Inr s' \<Rightarrow> Inr (integrate p s'))"

text \<open>
  The physics of one frame (lines 102 to 105), with the two kernels it calls as
  parameters.
\<close>

definition frame_with ::
  "('s \<Rightarrow> error + 's) \<Rightarrow> ('s \<Rightarrow> 's) \<Rightarrow> bool \<Rightarrow> 's \<Rightarrow> error + 's" where
  "frame_with forces_pass integration_pass pause s =
     (if \<not> pause then
        for_each (\<lambda>_ s. case forces_pass s of Inl e \<Rightarrow> Inl e | Inr s' \<Rightarrow> Inr (integration_pass s'))
          [0..<10] s
      else Inr s)"

definition frame :: "params \<Rightarrow> bool \<Rightarrow> sim \<Rightarrow> error + sim" where
  "frame p pause s = frame_with (compute_forces p) (integrate p) pause s"

datatype key = ESCAPE | SPACE | OtherKey

text \<open>
  The event loop of one frame, on the pair \<open>(window.running, pause)\<close>.
\<close>

fun handle_events :: "key list \<Rightarrow> bool \<times> bool \<Rightarrow> bool \<times> bool" where
  "handle_events [] rp = rp"
| "handle_events (e # es) (running, pause) =
     handle_events es
       (if e = ESCAPE then (False, pause)
        else if e = SPACE then (running, \<not> pause)
        else (running, pause))"

text \<open>
  The \<open>while window.running\<close> loop over the key presses of each frame, one list per
  frame; the drawing calls read the positions and change nothing. A frame in which
  ESCAPE was pressed is completed and is the last one.
\<close>

fun main_loop :: "params \<Rightarrow> key list list \<Rightarrow> bool \<Rightarrow> sim \<Rightarrow> error + sim" where
  "main_loop p [] pause s = Inr s"
| "main_loop p (evs # rest) pause s =
     (case handle_events evs (True, pause) of
        (running, pause') \<Rightarrow>
          (case frame p pause' s of
             Inl e \<Rightarrow> Inl e
           | Inr s' \<Rightarrow> if running then main_loop p rest pause' s' else Inr s'))"

definition main :: "params \<Rightarrow> key list list \<Rightarrow> sim \<Rightarrow> error + sim" where
  "main p presses s0 =
     (case initialize_particles p s0 of
        Inl e \<Rightarrow> Inl e
      | Inr s \<Rightarrow> main_loop p presses False s)"


subsection \<open>Derived notions used in the statements\<close>

text \<open>\<open>k\<close> consecutive substeps.\<close>

fun substeps :: "params \<Rightarrow> nat \<Rightarrow> sim \<Rightarrow> error + sim" where
  "substeps p 0 s = Inr s"
| "substeps p (Suc k) s =
     (case substep p s of Inl e \<Rightarrow> Inl e | Inr s' \<Rightarrow> substeps p k s')"

text \<open>The names of the two kernels, for a log of the calls a frame makes.\<close>

datatype kernel_call = ComputeForces | Integrate

text \<open>
  The quantities \<open>compute_forces\<close> computes for segment \<open>(i, i + 1)\<close>:
  \<open>current_length\<close>, \<open>direction_vec\<close>, \<open>spring_force_vec\<close> and
  \<open>damping_force_vec\<close> (lines 53 to 74), as functions of the fields.
\<close>

definition seg_length :: "sim \<Rightarrow> nat \<Rightarrow> real" where
  "seg_length s i = vnorm (vsub (positions s ! (i + 1)) (positions s ! i))"

definition seg_direction :: "sim \<Rightarrow> nat \<Rightarrow> vec2" where
  "seg_direction s i =
     (let dist_vec = vsub (positions s ! (i + 1)) (positions s ! i)
      in (fst dist_vec / vnorm dist_vec, snd dist_vec / vnorm dist_vec))"

definition spring_force :: "params \<Rightarrow> sim \<Rightarrow> nat \<Rightarrow> vec2" where
  "spring_force p s i =
     smul (stiffness p * (seg_length s i - rest_length p)) (seg_direction s i)"

definition damping_force :: "params \<Rightarrow> sim \<Rightarrow> nat \<Rightarrow> vec2" where
  "damping_force p s i =
     smul (damping p * vdot (vsub (velocities s ! (i + 1)) (velocities s ! i)) (seg_direction s i))
          (seg_direction s i)"

text \<open>The sum of the two force vectors of a segment, zero for a segment that is skipped.\<close>

definition seg_force :: "params \<Rightarrow> sim \<Rightarrow> nat \<Rightarrow> vec2" where
  "seg_force p s i =
     (if eps < seg_length s i then vadd (spring_force p s i) (damping_force p s i) else (0, 0))"

text \<open>
  Two field sets have the same particles when they differ in the contents of the force
  buffer at most.
\<close>

definition same_particles :: "sim \<Rightarrow> sim \<Rightarrow> bool" where
  "same_particles s s' \<longleftrightarrow>
     positions s' = positions s \<and> velocities s' = velocities s \<and>
     inv_mass s' = inv_mass s \<and> length (forces s') = length (forces s)"

subsection \<open>Concrete inputs\<close>

text \<open>
  The module's parameters with two particles, and three settings of the fields for them:
  a segment stretched to twice its rest length whose free end moves away, the same with
  a force already accumulated on the free particle, and two coincident particles.
\<close>

definition pair_params :: params where
  "pair_params = rope_params\<lparr>n_particles := 2\<rparr>"

definition stretched_pair :: sim where
  "stretched_pair =
     \<lparr> positions = [(1 / 10, 8 / 10), (3 / 10, 8 / 10)],
       velocities = [(0, 0), (2, 0)],
       forces = [(0, 0), (0, 0)],
       inv_mass = [0, 1] \<rparr>"

definition pulled_pair :: sim where
  "pulled_pair = stretched_pair\<lparr>forces := [(0, 0), (- 1000, 0)]\<rparr>"

definition coincident_pair :: sim where
  "coincident_pair =
     \<lparr> positions = [(1 / 10, 8 / 10), (1 / 10, 8 / 10)],
       velocities = [(0, 0), (2, 0)],
       forces = [(0, 0), (0, 0)],
       inv_mass = [0, 1] \<rparr>"

text \<open>The module's parameters with two particles and no gravity, and a pair at rest length.\<close>

definition still_params :: params where
  "still_params = pair_params\<lparr>gravity := (0, 0)\<rparr>"

definition resting_pair :: sim where
  "resting_pair =
     \<lparr> positions = [(1 / 10, 8 / 10), (2 / 10, 8 / 10)],
       velocities = [(0, 0), (0, 0)],
       forces = [(0, 0), (0, 0)],
       inv_mass = [0, 1] \<rparr>"

text \<open>
  Particle 0 is pinned at position \<open>a\<close> with velocity \<open>b\<close>: its inverse mass is zero.
\<close>

definition pin_state :: "params \<Rightarrow> vec2 \<Rightarrow> vec2 \<Rightarrow> sim \<Rightarrow> bool" where
  "pin_state p a b s \<longleftrightarrow>
     shaped p s \<and> inv_mass s ! 0 = 0 \<and> positions s ! 0 = a \<and> velocities s ! 0 = b"

text \<open>
  A pair at rest: particle 0 pinned, both velocities zero, the segment at its rest length.
\<close>

definition at_rest :: "params \<Rightarrow> sim \<Rightarrow> bool" where
  "at_rest p s \<longleftrightarrow>
     shaped p s \<and> inv_mass s ! 0 = 0 \<and>
     velocities s ! 0 = (0, 0) \<and> velocities s ! 1 = (0, 0) \<and>
     seg_length s 0 = rest_length p"

text \<open>
  The update of the force buffer by one segment as the specification words it: both force
  vectors added to particle \<open>i + 1\<close> and subtracted from particle \<open>i\<close>.
\<close>

definition claimed_segment_update :: "params \<Rightarrow> nat \<Rightarrow> sim \<Rightarrow> sim \<Rightarrow> bool" where
  "claimed_segment_update p i s s' \<longleftrightarrow>
     forces s' ! (i + 1) =
       vadd (vadd (forces s ! (i + 1)) (spring_force p s i)) (damping_force p s i) \<and>
     forces s' ! i =
       vsub (vsub (forces s ! i) (spring_force p s i)) (damping_force p s i)"

section \<open>Properties\<close>

subsection \<open>Auxiliary facts\<close>

lemma fold_clear_frame:
  "positions (fold clear_body xs s) = positions s"
  "velocities (fold clear_body xs s) = velocities s"
  "inv_mass (fold clear_body xs s) = inv_mass s"
  "length (forces (fold clear_body xs s)) = length (forces s)"
  by (induction xs arbitrary: s; simp add: clear_body_def)+

lemma fold_clear_forces:
  "k < length (forces s) \<Longrightarrow>
   forces (fold clear_body xs s) ! k = (if k \<in> set xs then (0, 0) else forces s ! k)"
proof (induction xs arbitrary: s)
  case Nil
  then show ?case by simp
next
  case (Cons x xs)
  have len: "k < length (forces (clear_body x s))"
    using Cons.prems by (simp add: clear_body_def)
  show ?case
    using Cons.IH [OF len] Cons.prems
    by (auto simp: clear_body_def nth_list_update)
qed

lemma fold_gravity_frame:
  "positions (fold (gravity_body p) xs s) = positions s"
  "velocities (fold (gravity_body p) xs s) = velocities s"
  "inv_mass (fold (gravity_body p) xs s) = inv_mass s"
  "length (forces (fold (gravity_body p) xs s)) = length (forces s)"
  by (induction xs arbitrary: s; simp add: gravity_body_def)+

lemma gravity_body_forces:
  "k < length (forces s) \<Longrightarrow>
   forces (gravity_body p x s) ! k =
     (if k = x \<and> inv_mass s ! k > 0
      then vadd (forces s ! k) (vscale (gravity p) (particle_mass p))
      else forces s ! k)"
  by (auto simp: gravity_body_def nth_list_update)

lemma fold_gravity_forces:
  "k < length (forces s) \<Longrightarrow> distinct xs \<Longrightarrow>
   forces (fold (gravity_body p) xs s) ! k =
     (if k \<in> set xs \<and> inv_mass s ! k > 0
      then vadd (forces s ! k) (vscale (gravity p) (particle_mass p))
      else forces s ! k)"
proof (induction xs arbitrary: s)
  case Nil
  then show ?case by simp
next
  case (Cons x xs)
  have len: "k < length (forces (gravity_body p x s))"
    using Cons.prems by (simp add: gravity_body_def)
  have im: "inv_mass (gravity_body p x s) = inv_mass s"
    by (simp add: gravity_body_def)
  have d: "distinct xs" and nx: "x \<notin> set xs" using Cons.prems by simp_all
  have "forces (fold (gravity_body p) (x # xs) s) ! k =
        forces (fold (gravity_body p) xs (gravity_body p x s)) ! k"
    by simp
  also have "\<dots> = (if k \<in> set xs \<and> inv_mass s ! k > 0
      then vadd (forces (gravity_body p x s) ! k) (vscale (gravity p) (particle_mass p))
      else forces (gravity_body p x s) ! k)"
    using Cons.IH [OF len d] by (simp add: im)
  also have "\<dots> = (if k \<in> set (x # xs) \<and> inv_mass s ! k > 0
      then vadd (forces s ! k) (vscale (gravity p) (particle_mass p))
      else forces s ! k)"
    using nx Cons.prems(1) by (auto simp: gravity_body_forces)
  finally show ?case .
qed

lemma fold_integrate_frame:
  "forces (fold (integrate_body p) xs s) = forces s"
  "inv_mass (fold (integrate_body p) xs s) = inv_mass s"
  "length (positions (fold (integrate_body p) xs s)) = length (positions s)"
  "length (velocities (fold (integrate_body p) xs s)) = length (velocities s)"
  by (induction xs arbitrary: s; simp add: integrate_body_def Let_def)+

lemma eps_pos: "0 < eps"
  by (simp add: eps_def)

lemma segment_body_degenerate:
  "seg_length s i \<le> eps \<Longrightarrow> segment_body p i s = Inr s"
  by (simp add: segment_body_def seg_length_def Let_def)

lemma segment_body_stretched:
  assumes L: "eps < seg_length s i" and len: "Suc i < length (forces s)"
  shows "segment_body p i s =
           Inr (s\<lparr>forces := (forces s)
                  [i := vadd (vadd (forces s ! i) (spring_force p s i)) (damping_force p s i),
                   Suc i := vsub (vsub (forces s ! Suc i) (spring_force p s i)) (damping_force p s i)]\<rparr>)"
proof -
  have nz: "vnorm (vsub (positions s ! Suc i) (positions s ! i)) \<noteq> 0"
    using L eps_pos by (simp add: seg_length_def)
  have i: "i < length (forces s)" using len by simp
  show ?thesis
    using L nz i len
    by (simp add: segment_body_def seg_length_def seg_direction_def spring_force_def
        damping_force_def vdiv_def Let_def list_update_swap [of i "Suc i"])
qed

lemma segment_body_total:
  "\<exists>s'. segment_body p i s = Inr s' \<and> same_particles s s' \<and>
       (\<forall>k. k \<noteq> i \<and> k \<noteq> Suc i \<longrightarrow> forces s' ! k = forces s ! k)"
proof (cases "eps < seg_length s i")
  case True
  then have nz: "vnorm (vsub (positions s ! Suc i) (positions s ! i)) \<noteq> 0"
    using eps_pos by (simp add: seg_length_def)
  show ?thesis
    using True nz
    by (simp add: segment_body_def seg_length_def vdiv_def Let_def same_particles_def)
next
  case False
  then show ?thesis
    by (simp add: segment_body_degenerate same_particles_def)
qed

lemma for_each_segment_total:
  "\<exists>s'. for_each (segment_body p) xs s = Inr s' \<and> same_particles s s' \<and>
       (\<forall>k. k \<notin> set xs \<and> k \<notin> Suc ` set xs \<longrightarrow> forces s' ! k = forces s ! k)"
proof (induction xs arbitrary: s)
  case Nil
  show ?case by (simp add: same_particles_def)
next
  case (Cons x xs)
  obtain s1 where s1: "segment_body p x s = Inr s1" "same_particles s s1"
    "\<forall>k. k \<noteq> x \<and> k \<noteq> Suc x \<longrightarrow> forces s1 ! k = forces s ! k"
    using segment_body_total by blast
  obtain s2 where s2: "for_each (segment_body p) xs s1 = Inr s2" "same_particles s1 s2"
    "\<forall>k. k \<notin> set xs \<and> k \<notin> Suc ` set xs \<longrightarrow> forces s2 ! k = forces s1 ! k"
    using Cons.IH by blast
  have "for_each (segment_body p) (x # xs) s = Inr s2"
    using s1(1) s2(1) by simp
  moreover have "same_particles s s2"
    using s1(2) s2(2) by (simp add: same_particles_def)
  moreover have "\<forall>k. k \<notin> set (x # xs) \<and> k \<notin> Suc ` set (x # xs) \<longrightarrow> forces s2 ! k = forces s ! k"
    using s1(3) s2(3) by auto
  ultimately show ?case by blast
qed

lemma compute_forces_total:
  "\<exists>s'. compute_forces p s = Inr s' \<and> same_particles s s'"
proof -
  let ?s2 = "fold (gravity_body p) [0..<n_particles p] (fold clear_body [0..<n_particles p] s)"
  obtain s' where s': "for_each (segment_body p) [0..<n_segments p] ?s2 = Inr s'"
    "same_particles ?s2 s'"
    using for_each_segment_total by blast
  have "compute_forces p s = Inr s'"
    using s'(1) by (simp add: compute_forces_def Let_def)
  moreover have "same_particles s s'"
    using s'(2) by (simp add: same_particles_def fold_gravity_frame fold_clear_frame)
  ultimately show ?thesis by blast
qed

lemma integrate_body_frame:
  "forces (integrate_body p i s) = forces s"
  "inv_mass (integrate_body p i s) = inv_mass s"
  "length (positions (integrate_body p i s)) = length (positions s)"
  "length (velocities (integrate_body p i s)) = length (velocities s)"
  by (simp_all add: integrate_body_def Let_def)

lemma integrate_body_velocities:
  "k < length (velocities s) \<Longrightarrow>
   velocities (integrate_body p i s) ! k =
     (if k = i \<and> 0 < inv_mass s ! k
      then vadd (velocities s ! k) (vscale (vscale (forces s ! k) (inv_mass s ! k)) (dt p))
      else velocities s ! k)"
  by (auto simp: integrate_body_def Let_def nth_list_update)

lemma integrate_body_positions:
  "k < length (velocities s) \<Longrightarrow> k < length (positions s) \<Longrightarrow>
   positions (integrate_body p i s) ! k =
     (if k = i \<and> 0 < inv_mass s ! k
      then vadd (positions s ! k)
             (vscale (vadd (velocities s ! k) (vscale (vscale (forces s ! k) (inv_mass s ! k)) (dt p)))
                (dt p))
      else positions s ! k)"
  by (auto simp: integrate_body_def Let_def nth_list_update)

lemma fold_integrate_velocities:
  "k < length (velocities s) \<Longrightarrow> distinct xs \<Longrightarrow>
   velocities (fold (integrate_body p) xs s) ! k =
     (if k \<in> set xs \<and> 0 < inv_mass s ! k
      then vadd (velocities s ! k) (vscale (vscale (forces s ! k) (inv_mass s ! k)) (dt p))
      else velocities s ! k)"
proof (induction xs arbitrary: s)
  case Nil
  then show ?case by simp
next
  case (Cons x xs)
  let ?s1 = "integrate_body p x s"
  have len: "k < length (velocities ?s1)"
    using Cons.prems by (simp add: integrate_body_frame)
  have d: "distinct xs" and nx: "x \<notin> set xs" using Cons.prems by simp_all
  have "velocities (fold (integrate_body p) (x # xs) s) ! k =
        velocities (fold (integrate_body p) xs ?s1) ! k"
    by simp
  also have "\<dots> = (if k \<in> set xs \<and> 0 < inv_mass s ! k
      then vadd (velocities ?s1 ! k) (vscale (vscale (forces s ! k) (inv_mass s ! k)) (dt p))
      else velocities ?s1 ! k)"
    using Cons.IH [OF len d] by (simp add: integrate_body_frame)
  also have "\<dots> = (if k \<in> set (x # xs) \<and> 0 < inv_mass s ! k
      then vadd (velocities s ! k) (vscale (vscale (forces s ! k) (inv_mass s ! k)) (dt p))
      else velocities s ! k)"
    using nx Cons.prems(1) by (auto simp: integrate_body_velocities)
  finally show ?case .
qed

lemma fold_integrate_positions:
  "k < length (velocities s) \<Longrightarrow> k < length (positions s) \<Longrightarrow> distinct xs \<Longrightarrow>
   positions (fold (integrate_body p) xs s) ! k =
     (if k \<in> set xs \<and> 0 < inv_mass s ! k
      then vadd (positions s ! k)
             (vscale (vadd (velocities s ! k) (vscale (vscale (forces s ! k) (inv_mass s ! k)) (dt p)))
                (dt p))
      else positions s ! k)"
proof (induction xs arbitrary: s)
  case Nil
  then show ?case by simp
next
  case (Cons x xs)
  let ?s1 = "integrate_body p x s"
  have lenv: "k < length (velocities ?s1)" and lenp: "k < length (positions ?s1)"
    using Cons.prems by (simp_all add: integrate_body_frame)
  have d: "distinct xs" and nx: "x \<notin> set xs" using Cons.prems by simp_all
  have "positions (fold (integrate_body p) (x # xs) s) ! k =
        positions (fold (integrate_body p) xs ?s1) ! k"
    by simp
  also have "\<dots> = (if k \<in> set xs \<and> 0 < inv_mass s ! k
      then vadd (positions ?s1 ! k)
             (vscale (vadd (velocities ?s1 ! k) (vscale (vscale (forces s ! k) (inv_mass s ! k)) (dt p)))
                (dt p))
      else positions ?s1 ! k)"
    using Cons.IH [OF lenv lenp d] by (simp add: integrate_body_frame)
  also have "\<dots> = (if k \<in> set (x # xs) \<and> 0 < inv_mass s ! k
      then vadd (positions s ! k)
             (vscale (vadd (velocities s ! k) (vscale (vscale (forces s ! k) (inv_mass s ! k)) (dt p)))
                (dt p))
      else positions s ! k)"
    using nx Cons.prems(1,2) by (auto simp: integrate_body_velocities integrate_body_positions)
  finally show ?case .
qed

lemma same_particles_seg_force:
  "same_particles s s' \<Longrightarrow> seg_force p s' i = seg_force p s i"
  by (simp add: same_particles_def seg_force_def seg_length_def spring_force_def
      damping_force_def seg_direction_def)

lemma same_particles_trans:
  "same_particles s s1 \<Longrightarrow> same_particles s1 s2 \<Longrightarrow> same_particles s s2"
  by (simp add: same_particles_def)

lemma vec_algebra:
  "vadd (vadd f a) b = vadd f (vadd a b)"
  "vsub (vsub f a) b = vsub f (vadd a b)"
  "vadd f (0, 0) = f"
  "vsub f (0, 0) = f"
  "vadd (0, 0) f = f"
  by (simp_all add: vadd_def vsub_def)

lemma segment_body_seg_force:
  assumes len: "Suc i < length (forces s)"
  shows "\<exists>s'. segment_body p i s = Inr s' \<and> same_particles s s' \<and>
           (\<forall>k. forces s' ! k =
              (if k = i then vadd (forces s ! i) (seg_force p s i)
               else if k = Suc i then vsub (forces s ! Suc i) (seg_force p s i)
               else forces s ! k))"
proof (cases "eps < seg_length s i")
  case True
  have i: "i < length (forces s)" using len by simp
  show ?thesis
    using True len i
    by (simp add: segment_body_stretched [OF True len] same_particles_def seg_force_def
        vec_algebra nth_list_update)
next
  case False
  then show ?thesis
    by (simp add: segment_body_degenerate same_particles_def seg_force_def vec_algebra)
qed

lemma for_each_append:
  "for_each body (xs @ ys) s =
     (case for_each body xs s of Inl e \<Rightarrow> Inl e | Inr s' \<Rightarrow> for_each body ys s')"
  by (induction xs arbitrary: s) (auto split: sum.splits)

lemma segments_closed_form:
  assumes "m < length (forces s)"
  shows "\<exists>s'. for_each (segment_body p) [0..<m] s = Inr s' \<and> same_particles s s' \<and>
           (\<forall>k. forces s' ! k =
              vsub (vadd (forces s ! k) (if k < m then seg_force p s k else (0, 0)))
                   (if 0 < k \<and> k \<le> m then seg_force p s (k - 1) else (0, 0)))"
  using assms
proof (induction m)
  case 0
  show ?case by (simp add: same_particles_def vec_algebra)
next
  case (Suc m)
  then have "m < length (forces s)" by simp
  then obtain s1 where s1: "for_each (segment_body p) [0..<m] s = Inr s1" "same_particles s s1"
    "\<forall>k. forces s1 ! k =
              vsub (vadd (forces s ! k) (if k < m then seg_force p s k else (0, 0)))
                   (if 0 < k \<and> k \<le> m then seg_force p s (k - 1) else (0, 0))"
    using Suc.IH by blast
  have len1: "Suc m < length (forces s1)"
    using Suc.prems s1(2) by (simp add: same_particles_def)
  obtain s2 where s2: "segment_body p m s1 = Inr s2" "same_particles s1 s2"
    "\<forall>k. forces s2 ! k =
              (if k = m then vadd (forces s1 ! m) (seg_force p s1 m)
               else if k = Suc m then vsub (forces s1 ! Suc m) (seg_force p s1 m)
               else forces s1 ! k)"
    using segment_body_seg_force [OF len1] by blast
  have sf: "seg_force p s1 m = seg_force p s m"
    using s1(2) by (rule same_particles_seg_force)
  have run: "for_each (segment_body p) [0..<Suc m] s = Inr s2"
    using s1(1) s2(1) by (simp add: for_each_append)
  have sp: "same_particles s s2"
    using s1(2) s2(2) by (rule same_particles_trans)
  have "forces s2 ! k =
          vsub (vadd (forces s ! k) (if k < Suc m then seg_force p s k else (0, 0)))
               (if 0 < k \<and> k \<le> Suc m then seg_force p s (k - 1) else (0, 0))" for k
  proof -
    consider "k < m" | "k = m" | "k = Suc m" | "Suc m < k" by linarith
    then show ?thesis
    proof cases
      case 1
      then show ?thesis using s2(3) s1(3) by simp
    next
      case 2
      then show ?thesis using s2(3) s1(3) sf
        by (simp add: vadd_def vsub_def)
    next
      case 3
      then show ?thesis using s2(3) s1(3) sf
        by (simp add: vadd_def vsub_def)
    next
      case 4
      then show ?thesis using s2(3) s1(3) by simp
    qed
  qed
  then show ?case using run sp by blast
qed

lemma compute_forces_closed_form:
  assumes sh: "shaped p s"
  shows "\<exists>s'. compute_forces p s = Inr s' \<and> same_particles s s' \<and>
           (\<forall>k<n_particles p. forces s' ! k =
              vsub (vadd (if 0 < inv_mass s ! k then vscale (gravity p) (particle_mass p) else (0, 0))
                         (if k < n_segments p then seg_force p s k else (0, 0)))
                   (if 0 < k then seg_force p s (k - 1) else (0, 0)))"
proof (cases "n_particles p = 0")
  case True
  obtain s' where "compute_forces p s = Inr s'" "same_particles s s'"
    using compute_forces_total by blast
  then show ?thesis using True by auto
next
  case False
  let ?n = "n_particles p"
  let ?s1 = "fold clear_body [0..<?n] s"
  let ?s2 = "fold (gravity_body p) [0..<?n] ?s1"
  have len: "length (forces s) = ?n" using sh by (simp add: shaped_def)
  have sp2: "same_particles s ?s2"
    by (simp add: same_particles_def fold_gravity_frame fold_clear_frame)
  have m: "n_segments p < length (forces ?s2)"
    using False len by (simp add: n_segments_def fold_gravity_frame fold_clear_frame)
  obtain s' where s': "for_each (segment_body p) [0..<n_segments p] ?s2 = Inr s'"
    "same_particles ?s2 s'"
    "\<forall>k. forces s' ! k =
        vsub (vadd (forces ?s2 ! k) (if k < n_segments p then seg_force p ?s2 k else (0, 0)))
             (if 0 < k \<and> k \<le> n_segments p then seg_force p ?s2 (k - 1) else (0, 0))"
    using segments_closed_form [OF m] by blast
  have run: "compute_forces p s = Inr s'"
    using s'(1) by (simp add: compute_forces_def Let_def)
  have sp: "same_particles s s'"
    using sp2 s'(2) by (rule same_particles_trans)
  have f1: "forces ?s1 ! k = (0, 0)" if "k < ?n" for k
    using that len by (simp add: fold_clear_forces)
  have f2: "forces ?s2 ! k =
      (if 0 < inv_mass s ! k then vscale (gravity p) (particle_mass p) else (0, 0))"
    if "k < ?n" for k
  proof -
    have "k < length (forces ?s1)" using that len by (simp add: fold_clear_frame)
    then show ?thesis
      using that f1 [OF that]
      by (simp add: fold_gravity_forces fold_clear_frame vec_algebra)
  qed
  have "forces s' ! k =
      vsub (vadd (if 0 < inv_mass s ! k then vscale (gravity p) (particle_mass p) else (0, 0))
                 (if k < n_segments p then seg_force p s k else (0, 0)))
           (if 0 < k then seg_force p s (k - 1) else (0, 0))"
    if "k < ?n" for k
  proof -
    have "k \<le> n_segments p" using that by (simp add: n_segments_def)
    then show ?thesis
      using s'(3) f2 [OF that] same_particles_seg_force [OF sp2, of p]
      by simp
  qed
  then show ?thesis using run sp by blast
qed

lemma integrate_velocities:
  "shaped p s \<Longrightarrow> k < n_particles p \<Longrightarrow>
   velocities (integrate p s) ! k =
     (if 0 < inv_mass s ! k
      then vadd (velocities s ! k) (vscale (vscale (forces s ! k) (inv_mass s ! k)) (dt p))
      else velocities s ! k)"
  by (simp add: integrate_def shaped_def fold_integrate_velocities)

lemma integrate_positions:
  "shaped p s \<Longrightarrow> k < n_particles p \<Longrightarrow>
   positions (integrate p s) ! k =
     (if 0 < inv_mass s ! k
      then vadd (positions s ! k)
             (vscale (vadd (velocities s ! k) (vscale (vscale (forces s ! k) (inv_mass s ! k)) (dt p)))
                (dt p))
      else positions s ! k)"
  by (simp add: integrate_def shaped_def fold_integrate_positions)

lemma integrate_frame:
  "forces (integrate p s) = forces s"
  "inv_mass (integrate p s) = inv_mass s"
  "length (positions (integrate p s)) = length (positions s)"
  "length (velocities (integrate p s)) = length (velocities s)"
  by (simp_all add: integrate_def fold_integrate_frame)

lemma integrate_shaped: "shaped p s \<Longrightarrow> shaped p (integrate p s)"
  by (simp add: shaped_def integrate_frame)

lemma same_particles_shaped: "same_particles s s' \<Longrightarrow> shaped p s \<Longrightarrow> shaped p s'"
  by (simp add: shaped_def same_particles_def)

lemma vnorm_axis: "vnorm (x, 0) = \<bar>x\<bar>"
  by (simp add: vnorm_def)

lemma stretched_pair_fields:
  "positions stretched_pair = [(1 / 10, 8 / 10), (3 / 10, 8 / 10)]"
  "velocities stretched_pair = [(0, 0), (2, 0)]"
  "forces stretched_pair = [(0, 0), (0, 0)]"
  "inv_mass stretched_pair = [0, 1]"
  by (simp_all add: stretched_pair_def)

lemma pair_params_fields:
  "n_particles pair_params = 2"
  "particle_mass pair_params = 1"
  "stiffness pair_params = 10000"
  "damping pair_params = 1 / 2"
  "rest_length pair_params = 1 / 10"
  "gravity pair_params = (0, - (981 / 100))"
  "dt pair_params = 5 / 10000"
  by (simp_all add: pair_params_def rope_params_def)

lemma shaped_stretched_pair: "shaped pair_params stretched_pair"
  by (simp add: shaped_def pair_params_fields stretched_pair_fields)

lemma seg_length_stretched_pair: "seg_length stretched_pair 0 = 1 / 5"
  by (simp add: seg_length_def stretched_pair_fields vsub_def vnorm_axis)

lemma seg_direction_stretched_pair: "seg_direction stretched_pair 0 = (1, 0)"
  by (simp add: seg_direction_def stretched_pair_fields vsub_def vnorm_axis Let_def)

lemma spring_force_stretched_pair: "spring_force pair_params stretched_pair 0 = (1000, 0)"
  by (simp add: spring_force_def seg_length_stretched_pair seg_direction_stretched_pair
      pair_params_fields smul_def)

lemma damping_force_stretched_pair: "damping_force pair_params stretched_pair 0 = (1, 0)"
  by (simp add: damping_force_def seg_direction_stretched_pair
      pair_params_fields smul_def vdot_def vsub_def stretched_pair_fields)

lemma coincident_pair_fields:
  "positions coincident_pair = [(1 / 10, 8 / 10), (1 / 10, 8 / 10)]"
  "velocities coincident_pair = [(0, 0), (2, 0)]"
  "forces coincident_pair = [(0, 0), (0, 0)]"
  "inv_mass coincident_pair = [0, 1]"
  by (simp_all add: coincident_pair_def)

lemma shaped_coincident_pair: "shaped pair_params coincident_pair"
  by (simp add: shaped_def pair_params_fields coincident_pair_fields)

lemma seg_length_coincident_pair: "seg_length coincident_pair 0 = 0"
  by (simp add: seg_length_def coincident_pair_fields vsub_def vnorm_axis)

lemma pulled_pair_fields:
  "positions pulled_pair = [(1 / 10, 8 / 10), (3 / 10, 8 / 10)]"
  "velocities pulled_pair = [(0, 0), (2, 0)]"
  "forces pulled_pair = [(0, 0), (- 1000, 0)]"
  "inv_mass pulled_pair = [0, 1]"
  by (simp_all add: pulled_pair_def stretched_pair_def)

lemma shaped_pulled_pair: "shaped pair_params pulled_pair"
  by (simp add: shaped_def pair_params_fields pulled_pair_fields)

lemma for_each_substeps:
  "for_each (\<lambda>_ s. case compute_forces p s of Inl e \<Rightarrow> Inl e | Inr s' \<Rightarrow> Inr (integrate p s')) xs s =
   substeps p (length xs) s"
  by (induction xs arbitrary: s) (auto simp: substep_def split: sum.splits)

lemma frame_running: "frame p False s = substeps p 10 s"
  using for_each_substeps [of p "[0..<10]" s] by (simp add: frame_def frame_with_def)

lemma init_body_result:
  assumes "particle_mass p \<noteq> 0"
  shows "init_body p i s =
           Inr (s\<lparr>positions := (positions s)[i := vadd start_pos (real i * rest_length p, 0)],
                  velocities := (velocities s)[i := (0, 0)],
                  inv_mass := (inv_mass s)[i := (if i = 0 then 0 else 1 / particle_mass p)]\<rparr>)"
  using assms by (simp add: init_body_def fdiv_def Let_def)

lemma for_each_init:
  assumes "particle_mass p \<noteq> 0"
  shows "\<exists>s'. for_each (init_body p) xs s = Inr s' \<and> forces s' = forces s \<and>
           length (positions s') = length (positions s) \<and>
           length (velocities s') = length (velocities s) \<and>
           length (inv_mass s') = length (inv_mass s) \<and>
           (\<forall>k<length (positions s). positions s' ! k =
              (if k \<in> set xs then vadd start_pos (real k * rest_length p, 0) else positions s ! k)) \<and>
           (\<forall>k<length (velocities s). velocities s' ! k =
              (if k \<in> set xs then (0, 0) else velocities s ! k)) \<and>
           (\<forall>k<length (inv_mass s). inv_mass s' ! k =
              (if k \<in> set xs then (if k = 0 then 0 else 1 / particle_mass p) else inv_mass s ! k))"
proof (induction xs arbitrary: s)
  case Nil
  show ?case by simp
next
  case (Cons x xs)
  let ?s1 = "s\<lparr>positions := (positions s)[x := vadd start_pos (real x * rest_length p, 0)],
                  velocities := (velocities s)[x := (0, 0)],
                  inv_mass := (inv_mass s)[x := (if x = 0 then 0 else 1 / particle_mass p)]\<rparr>"
  have b: "init_body p x s = Inr ?s1"
    using assms by (rule init_body_result)
  obtain s' where s': "for_each (init_body p) xs ?s1 = Inr s'" "forces s' = forces ?s1"
    "length (positions s') = length (positions ?s1)"
    "length (velocities s') = length (velocities ?s1)"
    "length (inv_mass s') = length (inv_mass ?s1)"
    "\<forall>k<length (positions ?s1). positions s' ! k =
        (if k \<in> set xs then vadd start_pos (real k * rest_length p, 0) else positions ?s1 ! k)"
    "\<forall>k<length (velocities ?s1). velocities s' ! k =
        (if k \<in> set xs then (0, 0) else velocities ?s1 ! k)"
    "\<forall>k<length (inv_mass ?s1). inv_mass s' ! k =
        (if k \<in> set xs then (if k = 0 then 0 else 1 / particle_mass p) else inv_mass ?s1 ! k)"
    using Cons.IH [of ?s1] by blast
  have run: "for_each (init_body p) (x # xs) s = Inr s'"
    using b s'(1) by simp
  have pos: "\<forall>k<length (positions s). positions s' ! k =
      (if k \<in> set (x # xs) then vadd start_pos (real k * rest_length p, 0) else positions s ! k)"
    using s'(6) by (auto simp: nth_list_update)
  have vel: "\<forall>k<length (velocities s). velocities s' ! k =
      (if k \<in> set (x # xs) then (0, 0) else velocities s ! k)"
    using s'(7) by (auto simp: nth_list_update)
  have im: "\<forall>k<length (inv_mass s). inv_mass s' ! k =
      (if k \<in> set (x # xs) then (if k = 0 then 0 else 1 / particle_mass p) else inv_mass s ! k)"
    using s'(8) by (auto simp: nth_list_update)
  show ?case
    using run s'(2-5) pos vel im by simp
qed

lemma shaped_fresh_fields: "shaped p (fresh_fields p)"
  by (simp add: shaped_def fresh_fields_def)

lemma rope_params_fields:
  "n_particles rope_params = 15"
  "particle_mass rope_params = 1"
  "stiffness rope_params = 10000"
  "damping rope_params = 1 / 2"
  "rest_length rope_params = 1 / 10"
  "gravity rope_params = (0, - (981 / 100))"
  "dt rope_params = 5 / 10000"
  by (simp_all add: rope_params_def)

lemma compute_forces_pin_state:
  assumes "pin_state p a b s"
  shows "\<exists>s'. compute_forces p s = Inr s' \<and> pin_state p a b s'"
proof -
  obtain s' where "compute_forces p s = Inr s'" "same_particles s s'"
    using compute_forces_total by blast
  then show ?thesis
    using assms by (auto simp: pin_state_def same_particles_def shaped_def)
qed

lemma integrate_pin_state:
  assumes "pin_state p a b s" and "0 < n_particles p"
  shows "pin_state p a b (integrate p s)"
  using assms
  by (simp add: pin_state_def integrate_shaped integrate_frame integrate_positions
      integrate_velocities)

lemma substep_pin_state:
  assumes "pin_state p a b s" and "0 < n_particles p"
  shows "\<exists>s'. substep p s = Inr s' \<and> pin_state p a b s'"
proof -
  obtain s1 where s1: "compute_forces p s = Inr s1" "pin_state p a b s1"
    using compute_forces_pin_state [OF assms(1)] by blast
  have "substep p s = Inr (integrate p s1)"
    using s1(1) by (simp add: substep_def)
  then show ?thesis
    using integrate_pin_state [OF s1(2) assms(2)] by blast
qed

lemma substeps_pin_state:
  assumes "pin_state p a b s" and "0 < n_particles p"
  shows "\<exists>s'. substeps p k s = Inr s' \<and> pin_state p a b s'"
  using assms(1)
proof (induction k arbitrary: s)
  case 0
  then show ?case by simp
next
  case (Suc k)
  obtain s1 where s1: "substep p s = Inr s1" "pin_state p a b s1"
    using substep_pin_state [OF Suc.prems assms(2)] by blast
  obtain s2 where "substeps p k s1 = Inr s2" "pin_state p a b s2"
    using Suc.IH [OF s1(2)] by blast
  then show ?case using s1(1) by simp
qed

lemma frame_pin_state:
  assumes "pin_state p a b s" and "0 < n_particles p"
  shows "\<exists>s'. frame p pause s = Inr s' \<and> pin_state p a b s'"
proof (cases pause)
  case True
  then show ?thesis using assms(1) by (simp add: frame_def frame_with_def)
next
  case False
  then show ?thesis
    using substeps_pin_state [OF assms, of 10] by (simp add: frame_running)
qed

lemma main_loop_pin_state:
  assumes "0 < n_particles p"
  shows "pin_state p a b s \<Longrightarrow> \<exists>s'. main_loop p presses pause s = Inr s' \<and> pin_state p a b s'"
proof (induction presses arbitrary: pause s)
  case Nil
  then show ?case by simp
next
  case (Cons evs rest)
  obtain running pause' where hp: "handle_events evs (True, pause) = (running, pause')"
    by (cases "handle_events evs (True, pause)") auto
  obtain s1 where s1: "frame p pause' s = Inr s1" "pin_state p a b s1"
    using frame_pin_state [OF Cons.prems assms] by blast
  show ?case
  proof (cases running)
    case True
    obtain s2 where "main_loop p rest pause' s1 = Inr s2" "pin_state p a b s2"
      using Cons.IH [OF s1(2)] by blast
    then show ?thesis using hp s1(1) True by simp
  next
    case False
    then show ?thesis using hp s1 by simp
  qed
qed

lemma integrate_ignores_unused_force:
  assumes sh: "shaped p s" and j: "\<not> 0 < inv_mass s ! j"
  shows "positions (integrate p (s\<lparr>forces := (forces s)[j := f]\<rparr>)) = positions (integrate p s)"
    and "velocities (integrate p (s\<lparr>forces := (forces s)[j := f]\<rparr>)) = velocities (integrate p s)"
proof -
  let ?t = "s\<lparr>forces := (forces s)[j := f]\<rparr>"
  have sht: "shaped p ?t" using sh by (simp add: shaped_def)
  have lp: "length (positions (integrate p ?t)) = length (positions (integrate p s))"
    by (simp add: integrate_frame)
  have lv: "length (velocities (integrate p ?t)) = length (velocities (integrate p s))"
    by (simp add: integrate_frame)
  have n: "length (positions (integrate p ?t)) = n_particles p"
    "length (velocities (integrate p ?t)) = n_particles p"
    using sh by (simp_all add: integrate_frame shaped_def)
  have fk: "forces ?t ! k = forces s ! k" if "k \<noteq> j" for k
    using that by simp
  show "positions (integrate p ?t) = positions (integrate p s)"
  proof (rule nth_equalityI [OF lp])
    fix k assume "k < length (positions (integrate p ?t))"
    then have k: "k < n_particles p" using n by simp
    have "positions (integrate p ?t) ! k =
            (if 0 < inv_mass s ! k
             then vadd (positions s ! k)
                    (vscale (vadd (velocities s ! k)
                       (vscale (vscale (forces ?t ! k) (inv_mass s ! k)) (dt p))) (dt p))
             else positions s ! k)"
      using integrate_positions [OF sht k] by simp
    then show "positions (integrate p ?t) ! k = positions (integrate p s) ! k"
      using j fk [of k] integrate_positions [OF sh k]
      by (cases "k = j") simp_all
  qed
  show "velocities (integrate p ?t) = velocities (integrate p s)"
  proof (rule nth_equalityI [OF lv])
    fix k assume "k < length (velocities (integrate p ?t))"
    then have k: "k < n_particles p" using n by simp
    have "velocities (integrate p ?t) ! k =
            (if 0 < inv_mass s ! k
             then vadd (velocities s ! k) (vscale (vscale (forces ?t ! k) (inv_mass s ! k)) (dt p))
             else velocities s ! k)"
      using integrate_velocities [OF sht k] by simp
    then show "velocities (integrate p ?t) ! k = velocities (integrate p s) ! k"
      using j fk [of k] integrate_velocities [OF sh k]
      by (cases "k = j") simp_all
  qed
qed

lemma seg_force_gravity:
  "seg_force (p\<lparr>gravity := g\<rparr>) s i = seg_force p s i"
  by (simp add: seg_force_def spring_force_def damping_force_def)

lemma compute_forces_pinned_end:
  assumes sh: "shaped p s" and n: "2 \<le> n_particles p" and m: "\<not> 0 < inv_mass s ! 0"
  shows "\<exists>s'. compute_forces p s = Inr s' \<and> same_particles s s' \<and>
           forces s' ! 0 = seg_force p s 0"
proof -
  obtain s' where s': "compute_forces p s = Inr s'" "same_particles s s'"
    "\<forall>k<n_particles p. forces s' ! k =
        vsub (vadd (if 0 < inv_mass s ! k then vscale (gravity p) (particle_mass p) else (0, 0))
                   (if k < n_segments p then seg_force p s k else (0, 0)))
             (if 0 < k then seg_force p s (k - 1) else (0, 0))"
    using compute_forces_closed_form [OF sh] by blast
  have "forces s' ! 0 = seg_force p s 0"
    using s'(3) n m by (simp add: n_segments_def vec_algebra)
  then show ?thesis using s'(1,2) by blast
qed

lemma at_rest_seg_force:
  assumes "at_rest p s"
  shows "seg_force p s 0 = (0, 0)"
  using assms
  by (simp add: at_rest_def seg_force_def spring_force_def damping_force_def
      smul_def vdot_def vsub_def vadd_def)

lemma substep_at_rest:
  assumes n: "n_particles p = 2" and g: "gravity p = (0, 0)" and r: "at_rest p s"
  shows "\<exists>s'. substep p s = Inr s' \<and> positions s' = positions s \<and>
           velocities s' = velocities s \<and> at_rest p s'"
proof -
  have sh: "shaped p s" using r by (simp add: at_rest_def)
  obtain s1 where s1: "compute_forces p s = Inr s1" "same_particles s s1"
    "\<forall>k<n_particles p. forces s1 ! k =
        vsub (vadd (if 0 < inv_mass s ! k then vscale (gravity p) (particle_mass p) else (0, 0))
                   (if k < n_segments p then seg_force p s k else (0, 0)))
             (if 0 < k then seg_force p s (k - 1) else (0, 0))"
    using compute_forces_closed_form [OF sh] by blast
  have sh1: "shaped p s1" using s1(2) sh by (rule same_particles_shaped)
  have f: "forces s1 ! k = (0, 0)" if "k < 2" for k
  proof -
    have "k = 0 \<or> k = 1" using that by auto
    then show ?thesis
      using s1(3) n g at_rest_seg_force [OF r]
      by (auto simp: n_segments_def vscale_def vadd_def vsub_def)
  qed
  let ?s2 = "integrate p s1"
  have step: "substep p s = Inr ?s2"
    using s1(1) by (simp add: substep_def)
  have v: "velocities ?s2 ! k = velocities s ! k" if "k < 2" for k
  proof -
    have k: "k < n_particles p" using that n by simp
    show ?thesis
      using integrate_velocities [OF sh1 k] f [OF that] s1(2)
      by (simp add: same_particles_def vadd_def vscale_def)
  qed
  have x: "positions ?s2 ! k = positions s ! k" if "k < 2" for k
  proof -
    have k: "k < n_particles p" using that n by simp
    have "k = 0 \<or> k = 1" using that by auto
    then show ?thesis
      using integrate_positions [OF sh1 k] f [OF that] s1(2) r
      by (auto simp: same_particles_def at_rest_def vadd_def vscale_def)
  qed
  have lv: "length (velocities ?s2) = 2" "length (velocities s) = 2"
    using sh sh1 n by (simp_all add: integrate_frame shaped_def)
  have lp: "length (positions ?s2) = 2" "length (positions s) = 2"
    using sh sh1 n by (simp_all add: integrate_frame shaped_def)
  have veq: "velocities ?s2 = velocities s"
    using lv v by (auto intro: nth_equalityI)
  have peq: "positions ?s2 = positions s"
    using lp x by (auto intro: nth_equalityI)
  have "at_rest p ?s2"
    using r s1(2) veq peq integrate_shaped [OF sh1]
    by (simp add: at_rest_def integrate_frame same_particles_def seg_length_def)
  then show ?thesis using step veq peq by blast
qed

lemma substeps_at_rest:
  assumes n: "n_particles p = 2" and g: "gravity p = (0, 0)"
  shows "at_rest p s \<Longrightarrow>
         \<exists>s'. substeps p k s = Inr s' \<and> positions s' = positions s \<and> velocities s' = velocities s"
proof (induction k arbitrary: s)
  case 0
  then show ?case by simp
next
  case (Suc k)
  obtain s1 where s1: "substep p s = Inr s1" "positions s1 = positions s"
    "velocities s1 = velocities s" "at_rest p s1"
    using substep_at_rest [OF n g Suc.prems] by blast
  obtain s2 where "substeps p k s1 = Inr s2" "positions s2 = positions s1"
    "velocities s2 = velocities s1"
    using Suc.IH [OF s1(4)] by blast
  then show ?case using s1(1-3) by simp
qed

lemma resting_pair_fields:
  "positions resting_pair = [(1 / 10, 8 / 10), (2 / 10, 8 / 10)]"
  "velocities resting_pair = [(0, 0), (0, 0)]"
  "forces resting_pair = [(0, 0), (0, 0)]"
  "inv_mass resting_pair = [0, 1]"
  by (simp_all add: resting_pair_def)

lemma still_params_fields:
  "n_particles still_params = 2"
  "rest_length still_params = 1 / 10"
  "gravity still_params = (0, 0)"
  by (simp_all add: still_params_def pair_params_fields)

subsection \<open>The forces of a segment (C1)\<close>

text \<open>
  Claim C1, as the code has it. For a segment \<open>(i, i + 1)\<close> longer than the threshold,
  the iteration of the segment loop adds the spring force vector and the damping force
  vector to the accumulator of particle \<open>i\<close> and subtracts both from the accumulator of
  particle \<open>i + 1\<close>; no other accumulator changes. At the end of the force pass the
  accumulator of particle \<open>i\<close> holds the sum of the two vectors with a plus sign and the
  accumulator of particle \<open>i + 1\<close> holds it with a minus sign, next to gravity and the
  force of the neighbouring segment. The direction vector points from particle \<open>i\<close> to
  particle \<open>i + 1\<close>, so a stretched segment pulls its two ends together.
\<close>

theorem segment_forces_applied:
  assumes "shaped p s" and "i < n_segments p" and "eps < seg_length s i"
  shows "(\<exists>s'. segment_body p i s = Inr s' \<and>
            forces s' ! i =
              vadd (vadd (forces s ! i) (spring_force p s i)) (damping_force p s i) \<and>
            forces s' ! (i + 1) =
              vsub (vsub (forces s ! (i + 1)) (spring_force p s i)) (damping_force p s i) \<and>
            (\<forall>k<n_particles p. k \<noteq> i \<and> k \<noteq> i + 1 \<longrightarrow> forces s' ! k = forces s ! k)) \<and>
         (\<exists>t. compute_forces p s = Inr t \<and>
            forces t ! i =
              vsub (vadd (if 0 < inv_mass s ! i then vscale (gravity p) (particle_mass p) else (0, 0))
                         (vadd (spring_force p s i) (damping_force p s i)))
                   (if 0 < i then seg_force p s (i - 1) else (0, 0)) \<and>
            forces t ! (i + 1) =
              vsub (vadd (if 0 < inv_mass s ! (i + 1) then vscale (gravity p) (particle_mass p)
                          else (0, 0))
                         (if i + 1 < n_segments p then seg_force p s (i + 1) else (0, 0)))
                   (vadd (spring_force p s i) (damping_force p s i)))"
proof -
  have len: "Suc i < length (forces s)"
    using assms(1,2) by (simp add: shaped_def n_segments_def)
  then have i: "i < length (forces s)" by simp
  have body: "\<exists>s'. segment_body p i s = Inr s' \<and>
            forces s' ! i =
              vadd (vadd (forces s ! i) (spring_force p s i)) (damping_force p s i) \<and>
            forces s' ! (i + 1) =
              vsub (vsub (forces s ! (i + 1)) (spring_force p s i)) (damping_force p s i) \<and>
            (\<forall>k<n_particles p. k \<noteq> i \<and> k \<noteq> i + 1 \<longrightarrow> forces s' ! k = forces s ! k)"
    using len i by (simp add: segment_body_stretched [OF assms(3) len] nth_list_update)
  have sf: "seg_force p s i = vadd (spring_force p s i) (damping_force p s i)"
    using assms(3) by (simp add: seg_force_def)
  have ki: "i < n_particles p" and ki1: "i + 1 < n_particles p"
    using assms(2) by (simp_all add: n_segments_def)
  obtain t where t: "compute_forces p s = Inr t"
    "\<forall>k<n_particles p. forces t ! k =
        vsub (vadd (if 0 < inv_mass s ! k then vscale (gravity p) (particle_mass p) else (0, 0))
                   (if k < n_segments p then seg_force p s k else (0, 0)))
             (if 0 < k then seg_force p s (k - 1) else (0, 0))"
    using compute_forces_closed_form [OF assms(1)] by blast
  have a: "forces t ! i =
              vsub (vadd (if 0 < inv_mass s ! i then vscale (gravity p) (particle_mass p) else (0, 0))
                         (vadd (spring_force p s i) (damping_force p s i)))
                   (if 0 < i then seg_force p s (i - 1) else (0, 0))"
    using t(2) ki assms(2) sf by simp
  have b: "forces t ! (i + 1) =
              vsub (vadd (if 0 < inv_mass s ! (i + 1) then vscale (gravity p) (particle_mass p)
                          else (0, 0))
                         (if i + 1 < n_segments p then seg_force p s (i + 1) else (0, 0)))
                   (vadd (spring_force p s i) (damping_force p s i))"
    using t(2) ki1 sf by simp
  show ?thesis
    using body t(1) a b by blast
qed

theorem segment_forces_applied_witness:
  "shaped pair_params stretched_pair \<and> 0 < n_segments pair_params \<and>
   eps < seg_length stretched_pair 0 \<and>
   (\<exists>s'. segment_body pair_params 0 stretched_pair = Inr s' \<and>
      forces s' ! 0 = (1001, 0) \<and> forces s' ! 1 = (- 1001, 0)) \<and>
   (\<exists>t. compute_forces pair_params stretched_pair = Inr t \<and>
      forces t ! 0 = (1001, 0) \<and> forces t ! 1 = (- 1001, - (981 / 100)))"
proof -
  have h1: "shaped pair_params stretched_pair" by (rule shaped_stretched_pair)
  have h2: "0 < n_segments pair_params"
    by (simp add: n_segments_def pair_params_fields)
  have h3: "eps < seg_length stretched_pair 0"
    by (simp add: seg_length_stretched_pair eps_def)
  show ?thesis
    using h1 h2 h3 segment_forces_applied [OF h1 h2 h3]
    by (auto simp: spring_force_stretched_pair damping_force_stretched_pair
        stretched_pair_fields pair_params_fields n_segments_def vadd_def vsub_def vscale_def)
qed

text \<open>
  C1 as the specification states it (added to particle \<open>i + 1\<close>, subtracted from particle
  \<open>i\<close>) fails: on the stretched pair the spring force vector is \<open>(1000, 0)\<close> and the
  damping force vector \<open>(1, 0)\<close>; the code leaves \<open>(1001, 0)\<close> on particle 0 and
  \<open>(-1001, 0)\<close> on particle 1.
\<close>

theorem segment_forces_claimed_counterexample:
  "segment_body pair_params 0 stretched_pair =
     Inr (stretched_pair\<lparr>forces := [(1001, 0), (- 1001, 0)]\<rparr>) \<and>
   \<not> claimed_segment_update pair_params 0 stretched_pair
       (stretched_pair\<lparr>forces := [(1001, 0), (- 1001, 0)]\<rparr>)"
proof -
  have h3: "eps < seg_length stretched_pair 0"
    by (simp add: seg_length_stretched_pair eps_def)
  have len: "Suc 0 < length (forces stretched_pair)"
    by (simp add: stretched_pair_fields)
  have "segment_body pair_params 0 stretched_pair =
     Inr (stretched_pair\<lparr>forces := [(1001, 0), (- 1001, 0)]\<rparr>)"
    by (simp add: segment_body_stretched [OF h3 len] spring_force_stretched_pair
        damping_force_stretched_pair stretched_pair_fields vadd_def vsub_def)
  moreover have "\<not> claimed_segment_update pair_params 0 stretched_pair
       (stretched_pair\<lparr>forces := [(1001, 0), (- 1001, 0)]\<rparr>)"
    by (simp add: claimed_segment_update_def spring_force_stretched_pair
        damping_force_stretched_pair stretched_pair_fields vadd_def vsub_def)
  ultimately show ?thesis by blast
qed

subsection \<open>The pin invariant (C2)\<close>

text \<open>
  Claim C2. After \<open>initialize_particles\<close>, particle 0 is at \<open>start_pos\<close> with zero
  velocity, and it still is after the main loop has run over any sequence of frames,
  paused or not, after any number of further substeps, and after the force pass of the
  next substep: position and velocity of particle 0 equal the initialized values. Every
  one of these runs returns without error.
\<close>

theorem pin_invariant:
  assumes "shaped p s0" and "0 < n_particles p" and "particle_mass p \<noteq> 0"
  shows "\<exists>s1 s2 s3 s4.
           initialize_particles p s0 = Inr s1 \<and>
           positions s1 ! 0 = start_pos \<and> velocities s1 ! 0 = (0, 0) \<and>
           main p presses s0 = Inr s2 \<and>
           positions s2 ! 0 = positions s1 ! 0 \<and> velocities s2 ! 0 = velocities s1 ! 0 \<and>
           substeps p k s2 = Inr s3 \<and>
           positions s3 ! 0 = positions s1 ! 0 \<and> velocities s3 ! 0 = velocities s1 ! 0 \<and>
           compute_forces p s3 = Inr s4 \<and>
           positions s4 ! 0 = positions s1 ! 0 \<and> velocities s4 ! 0 = velocities s1 ! 0"
proof -
  obtain s1 where s1: "for_each (init_body p) [0..<n_particles p] s0 = Inr s1"
    "length (positions s1) = length (positions s0)"
    "length (velocities s1) = length (velocities s0)"
    "length (inv_mass s1) = length (inv_mass s0)"
    "forces s1 = forces s0"
    "\<forall>k<length (positions s0). positions s1 ! k =
        (if k \<in> set [0..<n_particles p] then vadd start_pos (real k * rest_length p, 0)
         else positions s0 ! k)"
    "\<forall>k<length (velocities s0). velocities s1 ! k =
        (if k \<in> set [0..<n_particles p] then (0, 0) else velocities s0 ! k)"
    "\<forall>k<length (inv_mass s0). inv_mass s1 ! k =
        (if k \<in> set [0..<n_particles p] then (if k = 0 then 0 else 1 / particle_mass p)
         else inv_mass s0 ! k)"
    using for_each_init [OF assms(3)] by blast
  have init: "initialize_particles p s0 = Inr s1"
    using s1(1) by (simp add: initialize_particles_def)
  have p0: "positions s1 ! 0 = start_pos"
    using s1(6) assms(1,2) by (simp add: shaped_def vadd_def start_pos_def)
  have v0: "velocities s1 ! 0 = (0, 0)"
    using s1(7) assms(1,2) by (simp add: shaped_def)
  have m0: "inv_mass s1 ! 0 = 0"
    using s1(8) assms(1,2) by (simp add: shaped_def)
  have sh: "shaped p s1"
    using assms(1) s1(2-5) by (simp add: shaped_def)
  have pin1: "pin_state p start_pos (0, 0) s1"
    using sh m0 p0 v0 by (simp add: pin_state_def)
  obtain s2 where s2: "main_loop p presses False s1 = Inr s2" "pin_state p start_pos (0, 0) s2"
    using main_loop_pin_state [OF assms(2) pin1] by blast
  obtain s3 where s3: "substeps p k s2 = Inr s3" "pin_state p start_pos (0, 0) s3"
    using substeps_pin_state [OF s2(2) assms(2)] by blast
  obtain s4 where s4: "compute_forces p s3 = Inr s4" "pin_state p start_pos (0, 0) s4"
    using compute_forces_pin_state [OF s3(2)] by blast
  have "main p presses s0 = Inr s2"
    using init s2(1) by (simp add: main_def)
  then show ?thesis
    using init p0 v0 s2(2) s3 s4 by (auto simp: pin_state_def)
qed

theorem pin_invariant_witness:
  "shaped rope_params (fresh_fields rope_params) \<and> 0 < n_particles rope_params \<and>
   particle_mass rope_params \<noteq> 0 \<and>
   (\<exists>s1 s2 s3 s4.
      initialize_particles rope_params (fresh_fields rope_params) = Inr s1 \<and>
      positions s1 ! 0 = start_pos \<and> velocities s1 ! 0 = (0, 0) \<and>
      main rope_params [[], [SPACE], [], [SPACE, OtherKey], [], [ESCAPE]]
        (fresh_fields rope_params) = Inr s2 \<and>
      positions s2 ! 0 = positions s1 ! 0 \<and> velocities s2 ! 0 = velocities s1 ! 0 \<and>
      substeps rope_params 7 s2 = Inr s3 \<and>
      positions s3 ! 0 = positions s1 ! 0 \<and> velocities s3 ! 0 = velocities s1 ! 0 \<and>
      compute_forces rope_params s3 = Inr s4 \<and>
      positions s4 ! 0 = positions s1 ! 0 \<and> velocities s4 ! 0 = velocities s1 ! 0)"
proof -
  have h1: "shaped rope_params (fresh_fields rope_params)" by (rule shaped_fresh_fields)
  have h2: "0 < n_particles rope_params" by (simp add: rope_params_fields)
  have h3: "particle_mass rope_params \<noteq> 0" by (simp add: rope_params_fields)
  show ?thesis
    using h1 h2 h3
      pin_invariant [OF h1 h2 h3, of "[[], [SPACE], [], [SPACE, OtherKey], [], [ESCAPE]]" 7]
    by blast
qed

subsection \<open>Momentum pairing (C3)\<close>

text \<open>
  Claim C3. For a segment \<open>(i, i + 1)\<close> longer than the threshold, what the iteration of
  the segment loop adds to the accumulator of particle \<open>i\<close> is the exact negation of what
  it adds to the accumulator of particle \<open>i + 1\<close>. The gravity term is written by an
  earlier loop and is not part of either difference.
\<close>

theorem segment_forces_equal_opposite:
  assumes "shaped p s" and "i < n_segments p" and "eps < seg_length s i"
  shows "\<exists>s'. segment_body p i s = Inr s' \<and>
           vsub (forces s' ! i) (forces s ! i) =
             vneg (vsub (forces s' ! (i + 1)) (forces s ! (i + 1)))"
proof -
  have len: "Suc i < length (forces s)"
    using assms(1,2) by (simp add: shaped_def n_segments_def)
  then have i: "i < length (forces s)" by simp
  show ?thesis
    using len i
    by (simp add: segment_body_stretched [OF assms(3) len] nth_list_update
        vsub_def vadd_def vneg_def)
qed

theorem segment_forces_equal_opposite_witness:
  "shaped pair_params stretched_pair \<and> 0 < n_segments pair_params \<and>
   eps < seg_length stretched_pair 0 \<and>
   (\<exists>s'. segment_body pair_params 0 stretched_pair = Inr s' \<and>
      vsub (forces s' ! 0) (0, 0) = vneg (vsub (forces s' ! 1) (0, 0)))"
proof -
  have h1: "shaped pair_params stretched_pair" by (rule shaped_stretched_pair)
  have h2: "0 < n_segments pair_params"
    by (simp add: n_segments_def pair_params_fields)
  have h3: "eps < seg_length stretched_pair 0"
    by (simp add: seg_length_stretched_pair eps_def)
  show ?thesis
    using h1 h2 h3 segment_forces_equal_opposite [OF h1 h2 h3]
    by (simp add: stretched_pair_fields)
qed

subsection \<open>The degenerate-length guard (C4)\<close>

text \<open>
  Claim C4. For a segment of length at most \<open>1e-6\<close>, coincident particles included, the
  iteration of the segment loop returns the fields unchanged and without the error
  \<open>DivisionByZero\<close>; the whole force pass returns without error, and the forces it
  leaves on the two ends of the segment hold no term of this segment: gravity and the
  force of the neighbouring segment only.
\<close>

theorem degenerate_segment_skipped:
  assumes "shaped p s" and "i < n_segments p" and "seg_length s i \<le> eps"
  shows "segment_body p i s = Inr s \<and>
         (\<exists>s'. compute_forces p s = Inr s' \<and>
            forces s' ! i =
              vsub (if 0 < inv_mass s ! i then vscale (gravity p) (particle_mass p) else (0, 0))
                   (if 0 < i then seg_force p s (i - 1) else (0, 0)) \<and>
            forces s' ! (i + 1) =
              vadd (if 0 < inv_mass s ! (i + 1) then vscale (gravity p) (particle_mass p) else (0, 0))
                   (if i + 1 < n_segments p then seg_force p s (i + 1) else (0, 0)))"
proof -
  have z: "seg_force p s i = (0, 0)"
    using assms(3) by (simp add: seg_force_def)
  have i: "i < n_particles p" and i1: "i + 1 < n_particles p"
    using assms(2) by (simp_all add: n_segments_def)
  obtain s' where s': "compute_forces p s = Inr s'"
    "\<forall>k<n_particles p. forces s' ! k =
        vsub (vadd (if 0 < inv_mass s ! k then vscale (gravity p) (particle_mass p) else (0, 0))
                   (if k < n_segments p then seg_force p s k else (0, 0)))
             (if 0 < k then seg_force p s (k - 1) else (0, 0))"
    using compute_forces_closed_form [OF assms(1)] by blast
  have "forces s' ! i =
          vsub (if 0 < inv_mass s ! i then vscale (gravity p) (particle_mass p) else (0, 0))
               (if 0 < i then seg_force p s (i - 1) else (0, 0))"
    using s'(2) i assms(2) z by (simp add: vec_algebra)
  moreover have "forces s' ! (i + 1) =
          vadd (if 0 < inv_mass s ! (i + 1) then vscale (gravity p) (particle_mass p) else (0, 0))
               (if i + 1 < n_segments p then seg_force p s (i + 1) else (0, 0))"
    using s'(2) i1 z by (simp add: vec_algebra)
  ultimately show ?thesis
    using s'(1) assms(3) by (simp add: segment_body_degenerate)
qed

theorem degenerate_segment_skipped_witness:
  "shaped pair_params coincident_pair \<and> 0 < n_segments pair_params \<and>
   seg_length coincident_pair 0 \<le> eps \<and>
   segment_body pair_params 0 coincident_pair = Inr coincident_pair \<and>
   (\<exists>s'. compute_forces pair_params coincident_pair = Inr s' \<and>
      forces s' ! 0 = (0, 0) \<and> forces s' ! 1 = (0, - (981 / 100)))"
proof -
  have h1: "shaped pair_params coincident_pair" by (rule shaped_coincident_pair)
  have h2: "0 < n_segments pair_params"
    by (simp add: n_segments_def pair_params_fields)
  have h3: "seg_length coincident_pair 0 \<le> eps"
    by (simp add: seg_length_coincident_pair eps_def)
  show ?thesis
    using h1 h2 h3 degenerate_segment_skipped [OF h1 h2 h3]
    by (simp add: coincident_pair_fields pair_params_fields n_segments_def
        vsub_def vadd_def vscale_def)
qed

subsection \<open>Semi-implicit Euler integration (C5)\<close>

text \<open>
  Claim C5. On fields whose inverse masses are non-negative, as the data model has them,
  \<open>integrate\<close> updates a particle of non-zero inverse mass by
  \<open>velocity += (force * inverse_mass) * dt\<close> and then
  \<open>position += velocity * dt\<close> with the velocity just computed, and leaves a particle of
  zero inverse mass untouched.
\<close>

theorem integrate_semi_implicit_euler:
  assumes "shaped p s" and "i < n_particles p" and "0 \<le> inv_mass s ! i"
  shows "(inv_mass s ! i \<noteq> 0 \<longrightarrow>
            velocities (integrate p s) ! i =
              vadd (velocities s ! i) (vscale (vscale (forces s ! i) (inv_mass s ! i)) (dt p)) \<and>
            positions (integrate p s) ! i =
              vadd (positions s ! i) (vscale (velocities (integrate p s) ! i) (dt p))) \<and>
         (inv_mass s ! i = 0 \<longrightarrow>
            velocities (integrate p s) ! i = velocities s ! i \<and>
            positions (integrate p s) ! i = positions s ! i \<and>
            forces (integrate p s) ! i = forces s ! i \<and>
            inv_mass (integrate p s) ! i = inv_mass s ! i)"
  using assms by (simp add: integrate_velocities integrate_positions integrate_frame)

theorem integrate_semi_implicit_euler_witness:
  "shaped pair_params pulled_pair \<and> (1::nat) < n_particles pair_params \<and>
   0 \<le> inv_mass pulled_pair ! 1 \<and> inv_mass pulled_pair ! 1 \<noteq> 0 \<and>
   velocities (integrate pair_params pulled_pair) ! 1 = (3 / 2, 0) \<and>
   positions (integrate pair_params pulled_pair) ! 1 = (1203 / 4000, 8 / 10)"
proof -
  have h1: "shaped pair_params pulled_pair" by (rule shaped_pulled_pair)
  have h2: "(1::nat) < n_particles pair_params" by (simp add: pair_params_fields)
  have h3: "0 \<le> inv_mass pulled_pair ! 1" by (simp add: pulled_pair_fields)
  show ?thesis
    using h1 h2 h3 integrate_semi_implicit_euler [OF h1 h2 h3]
    by (simp add: pulled_pair_fields pair_params_fields vadd_def vscale_def)
qed

subsection \<open>One frame (C6)\<close>

text \<open>
  Claim C6. A paused frame returns the fields unchanged, so the position and velocity of
  every particle are unchanged; a frame that is not paused is ten substeps, each the
  force pass followed by the integration pass. With the two kernels replaced by functions
  that append their name to a log, a paused frame logs nothing and a running frame logs
  the pair \<open>ComputeForces, Integrate\<close> exactly ten times, in that order.
\<close>

theorem frame_paused_or_ten_substeps:
  "frame p True s = Inr s \<and>
   frame p False s = substeps p 10 s \<and>
   frame_with (\<lambda>log. Inr (log @ [ComputeForces])) (\<lambda>log. log @ [Integrate]) True [] = Inr [] \<and>
   frame_with (\<lambda>log. Inr (log @ [ComputeForces])) (\<lambda>log. log @ [Integrate]) False [] =
     Inr [ComputeForces, Integrate, ComputeForces, Integrate, ComputeForces, Integrate,
          ComputeForces, Integrate, ComputeForces, Integrate, ComputeForces, Integrate,
          ComputeForces, Integrate, ComputeForces, Integrate, ComputeForces, Integrate,
          ComputeForces, Integrate]"
proof -
  have paused: "frame p True s = Inr s"
    by (simp add: frame_def frame_with_def)
  have r: "[0..<10] = [0, 1, 2, 3, 4, 5, 6, 7, 8, 9]"
    by (simp add: upt_rec)
  have log_paused:
    "frame_with (\<lambda>log. Inr (log @ [ComputeForces])) (\<lambda>log. log @ [Integrate]) True [] = Inr []"
    by (simp add: frame_with_def)
  have log_running:
    "frame_with (\<lambda>log. Inr (log @ [ComputeForces])) (\<lambda>log. log @ [Integrate]) False [] =
     Inr [ComputeForces, Integrate, ComputeForces, Integrate, ComputeForces, Integrate,
          ComputeForces, Integrate, ComputeForces, Integrate, ComputeForces, Integrate,
          ComputeForces, Integrate, ComputeForces, Integrate, ComputeForces, Integrate,
          ComputeForces, Integrate]"
    by (simp add: frame_with_def r)
  show ?thesis
    using paused frame_running log_paused log_running by simp
qed

subsection \<open>Initialization (C7)\<close>

text \<open>
  Claim C7. For a non-zero particle mass, \<open>initialize_particles\<close> returns fields in which
  particle \<open>i\<close> is at \<open>start_pos + (i * rest_length, 0)\<close>, every velocity is the zero
  vector, and the inverse mass is 0 for particle 0 and \<open>1 / particle_mass\<close> for every
  other particle. The force buffer is not written.
\<close>

theorem initialize_particles_layout:
  assumes "shaped p s" and "particle_mass p \<noteq> 0"
  shows "\<exists>s'. initialize_particles p s = Inr s' \<and> shaped p s' \<and> forces s' = forces s \<and>
           (\<forall>i<n_particles p.
              positions s' ! i = vadd start_pos (real i * rest_length p, 0) \<and>
              velocities s' ! i = (0, 0) \<and>
              inv_mass s' ! i = (if i = 0 then 0 else 1 / particle_mass p))"
proof -
  obtain s' where s': "for_each (init_body p) [0..<n_particles p] s = Inr s'" "forces s' = forces s"
    "length (positions s') = length (positions s)"
    "length (velocities s') = length (velocities s)"
    "length (inv_mass s') = length (inv_mass s)"
    "\<forall>k<length (positions s). positions s' ! k =
        (if k \<in> set [0..<n_particles p] then vadd start_pos (real k * rest_length p, 0)
         else positions s ! k)"
    "\<forall>k<length (velocities s). velocities s' ! k =
        (if k \<in> set [0..<n_particles p] then (0, 0) else velocities s ! k)"
    "\<forall>k<length (inv_mass s). inv_mass s' ! k =
        (if k \<in> set [0..<n_particles p] then (if k = 0 then 0 else 1 / particle_mass p)
         else inv_mass s ! k)"
    using for_each_init [OF assms(2)] by blast
  have "shaped p s'"
    using assms(1) s'(2-5) by (simp add: shaped_def)
  moreover have "\<forall>i<n_particles p.
              positions s' ! i = vadd start_pos (real i * rest_length p, 0) \<and>
              velocities s' ! i = (0, 0) \<and>
              inv_mass s' ! i = (if i = 0 then 0 else 1 / particle_mass p)"
    using assms(1) s'(6-8) by (simp add: shaped_def)
  ultimately show ?thesis
    using s'(1,2) by (simp add: initialize_particles_def)
qed

theorem initialize_particles_layout_witness:
  "shaped rope_params (fresh_fields rope_params) \<and> particle_mass rope_params \<noteq> 0 \<and>
   (\<exists>s'. initialize_particles rope_params (fresh_fields rope_params) = Inr s' \<and>
      positions s' ! 0 = (1 / 10, 8 / 10) \<and> positions s' ! 14 = (15 / 10, 8 / 10) \<and>
      velocities s' ! 14 = (0, 0) \<and> inv_mass s' ! 0 = 0 \<and> inv_mass s' ! 14 = 1)"
proof -
  have h1: "shaped rope_params (fresh_fields rope_params)" by (rule shaped_fresh_fields)
  have h2: "particle_mass rope_params \<noteq> 0" by (simp add: rope_params_fields)
  obtain s' where s': "initialize_particles rope_params (fresh_fields rope_params) = Inr s'"
    "\<forall>i<n_particles rope_params.
       positions s' ! i = vadd start_pos (real i * rest_length rope_params, 0) \<and>
       velocities s' ! i = (0, 0) \<and>
       inv_mass s' ! i = (if i = 0 then 0 else 1 / particle_mass rope_params)"
    using initialize_particles_layout [OF h1 h2] by blast
  have "positions s' ! 0 = (1 / 10, 8 / 10)" "positions s' ! 14 = (15 / 10, 8 / 10)"
    "velocities s' ! 14 = (0, 0)" "inv_mass s' ! 0 = 0" "inv_mass s' ! 14 = 1"
    using s'(2) by (simp_all add: rope_params_fields start_pos_def vadd_def)
  then show ?thesis
    using h1 h2 s'(1) by blast
qed

subsection \<open>Rest-length equilibrium (C8)\<close>

text \<open>
  Claim C8. With two particles, no gravity, particle 0 pinned, both velocities zero and
  particle 1 exactly \<open>rest_length\<close> away, one substep returns the same positions
  and velocities, and after 1000 substeps particle 1 has not moved: in exact arithmetic
  the drift is zero.
\<close>

theorem rest_length_equilibrium:
  assumes "n_particles p = 2" and "gravity p = (0, 0)" and "shaped p s"
    and "inv_mass s ! 0 = 0"
    and "velocities s ! 0 = (0, 0)" and "velocities s ! 1 = (0, 0)"
    and "seg_length s 0 = rest_length p"
  shows "(\<exists>s'. substep p s = Inr s' \<and> positions s' = positions s \<and>
               velocities s' = velocities s) \<and>
         (\<exists>s'. substeps p 1000 s = Inr s' \<and> positions s' ! 1 = positions s ! 1 \<and>
               velocities s' ! 1 = velocities s ! 1)"
proof -
  have r: "at_rest p s"
    using assms(3-7) by (simp add: at_rest_def)
  obtain s1 where s1: "substep p s = Inr s1" "positions s1 = positions s"
    "velocities s1 = velocities s"
    using substep_at_rest [OF assms(1,2) r] by blast
  obtain s2 where s2: "substeps p 1000 s = Inr s2" "positions s2 = positions s"
    "velocities s2 = velocities s"
    using substeps_at_rest [OF assms(1,2) r] by blast
  show ?thesis
    using s1 s2 by simp
qed

theorem rest_length_equilibrium_witness:
  "n_particles still_params = 2 \<and> gravity still_params = (0, 0) \<and>
   shaped still_params resting_pair \<and> inv_mass resting_pair ! 0 = 0 \<and>
   velocities resting_pair ! 0 = (0, 0) \<and> velocities resting_pair ! 1 = (0, 0) \<and>
   seg_length resting_pair 0 = rest_length still_params \<and>
   (\<exists>s'. substeps still_params 1000 resting_pair = Inr s' \<and>
      positions s' ! 1 = (2 / 10, 8 / 10) \<and> velocities s' ! 1 = (0, 0))"
proof -
  have h1: "n_particles still_params = 2" by (simp add: still_params_fields)
  have h2: "gravity still_params = (0, 0)" by (simp add: still_params_fields)
  have h3: "shaped still_params resting_pair"
    by (simp add: shaped_def still_params_fields resting_pair_fields)
  have h4: "inv_mass resting_pair ! 0 = 0" by (simp add: resting_pair_fields)
  have h5: "velocities resting_pair ! 0 = (0, 0)" by (simp add: resting_pair_fields)
  have h6: "velocities resting_pair ! 1 = (0, 0)" by (simp add: resting_pair_fields)
  have h7: "seg_length resting_pair 0 = rest_length still_params"
    by (simp add: seg_length_def resting_pair_fields still_params_fields vsub_def vnorm_axis)
  show ?thesis
    using h1 h2 h3 h4 h5 h6 h7 rest_length_equilibrium [OF h1 h2 h3 h4 h5 h6 h7]
    by (auto simp: resting_pair_fields)
qed

subsection \<open>What each kernel writes (C9)\<close>

text \<open>
  Claim C9. The force pass returns fields whose positions, velocities and inverse masses
  are those it was given. The integration pass leaves the force buffer and the inverse
  masses as they were, and leaves the velocity and position of every particle whose
  inverse mass is not positive as they were.
\<close>

theorem kernels_frame_effect:
  assumes "shaped p s"
  shows "(\<exists>s'. compute_forces p s = Inr s' \<and> positions s' = positions s \<and>
               velocities s' = velocities s \<and> inv_mass s' = inv_mass s) \<and>
         forces (integrate p s) = forces s \<and>
         inv_mass (integrate p s) = inv_mass s \<and>
         (\<forall>i<n_particles p. \<not> 0 < inv_mass s ! i \<longrightarrow>
            velocities (integrate p s) ! i = velocities s ! i \<and>
            positions (integrate p s) ! i = positions s ! i)"
proof -
  obtain s' where "compute_forces p s = Inr s'" "same_particles s s'"
    using compute_forces_total by blast
  then have "\<exists>s'. compute_forces p s = Inr s' \<and> positions s' = positions s \<and>
               velocities s' = velocities s \<and> inv_mass s' = inv_mass s"
    by (auto simp: same_particles_def)
  then show ?thesis
    using assms by (simp add: integrate_velocities integrate_positions integrate_frame)
qed

theorem kernels_frame_effect_witness:
  "shaped pair_params stretched_pair \<and>
   (\<exists>s'. compute_forces pair_params stretched_pair = Inr s' \<and>
      positions s' = positions stretched_pair \<and> velocities s' = velocities stretched_pair \<and>
      inv_mass s' = inv_mass stretched_pair) \<and>
   forces (integrate pair_params stretched_pair) = forces stretched_pair \<and>
   inv_mass (integrate pair_params stretched_pair) = inv_mass stretched_pair \<and>
   (0::nat) < n_particles pair_params \<and> \<not> 0 < inv_mass stretched_pair ! 0 \<and>
   velocities (integrate pair_params stretched_pair) ! 0 = (0, 0) \<and>
   positions (integrate pair_params stretched_pair) ! 0 = (1 / 10, 8 / 10)"
proof -
  have h1: "shaped pair_params stretched_pair" by (rule shaped_stretched_pair)
  have h2: "(0::nat) < n_particles pair_params" by (simp add: pair_params_fields)
  have h3: "\<not> 0 < inv_mass stretched_pair ! 0" by (simp add: stretched_pair_fields)
  show ?thesis
    using h1 h2 h3 kernels_frame_effect [OF h1]
    by (auto simp: stretched_pair_fields)
qed

subsection \<open>The force left on the pinned particle (C10)\<close>

text \<open>
  Claim C10. With at least two particles and particle 0 pinned, the force pass leaves on
  particle 0 the spring and damping force of segment \<open>(0, 1)\<close> when that segment is
  longer than the threshold, and zero otherwise; the value is the same for every gravity
  vector. The integration pass that follows leaves particle 0 where it was, and its
  positions and velocities are the same whatever value the accumulator of particle 0
  holds.
\<close>

theorem pinned_force_accumulator:
  assumes "shaped p s" and "2 \<le> n_particles p" and "inv_mass s ! 0 = 0"
  shows "\<exists>s'. compute_forces p s = Inr s' \<and>
           forces s' ! 0 =
             (if eps < seg_length s 0 then vadd (spring_force p s 0) (damping_force p s 0)
              else (0, 0)) \<and>
           (\<forall>g. \<exists>t. compute_forces (p\<lparr>gravity := g\<rparr>) s = Inr t \<and> forces t ! 0 = forces s' ! 0) \<and>
           positions (integrate p s') ! 0 = positions s ! 0 \<and>
           velocities (integrate p s') ! 0 = velocities s ! 0 \<and>
           (\<forall>f. positions (integrate p (s'\<lparr>forces := (forces s')[0 := f]\<rparr>)) =
                  positions (integrate p s') \<and>
                velocities (integrate p (s'\<lparr>forces := (forces s')[0 := f]\<rparr>)) =
                  velocities (integrate p s'))"
proof -
  have m: "\<not> 0 < inv_mass s ! 0" using assms(3) by simp
  obtain s' where s': "compute_forces p s = Inr s'" "same_particles s s'"
    "forces s' ! 0 = seg_force p s 0"
    using compute_forces_pinned_end [OF assms(1,2) m] by blast
  have sh': "shaped p s'"
    using s'(2) assms(1) by (rule same_particles_shaped)
  have m': "\<not> 0 < inv_mass s' ! 0"
    using s'(2) m by (simp add: same_particles_def)
  have k0: "0 < n_particles p" using assms(2) by simp
  have grav: "\<exists>t. compute_forces (p\<lparr>gravity := g\<rparr>) s = Inr t \<and> forces t ! 0 = forces s' ! 0" for g
  proof -
    have shg: "shaped (p\<lparr>gravity := g\<rparr>) s" using assms(1) by (simp add: shaped_def)
    have ng: "2 \<le> n_particles (p\<lparr>gravity := g\<rparr>)" using assms(2) by simp
    obtain t where "compute_forces (p\<lparr>gravity := g\<rparr>) s = Inr t"
      "forces t ! 0 = seg_force (p\<lparr>gravity := g\<rparr>) s 0"
      using compute_forces_pinned_end [OF shg ng m] by blast
    then show ?thesis using s'(3) by (simp add: seg_force_gravity)
  qed
  have pos: "positions (integrate p s') ! 0 = positions s ! 0"
    using m' s'(2) by (simp add: integrate_positions [OF sh' k0] same_particles_def)
  have vel: "velocities (integrate p s') ! 0 = velocities s ! 0"
    using m' s'(2) by (simp add: integrate_velocities [OF sh' k0] same_particles_def)
  show ?thesis
    using s'(1,3) grav pos vel integrate_ignores_unused_force [OF sh' m']
    by (simp add: seg_force_def)
qed

theorem pinned_force_accumulator_witness:
  "shaped pair_params stretched_pair \<and> 2 \<le> n_particles pair_params \<and>
   inv_mass stretched_pair ! 0 = 0 \<and> eps < seg_length stretched_pair 0 \<and>
   (\<exists>s'. compute_forces pair_params stretched_pair = Inr s' \<and>
      forces s' ! 0 = (1001, 0) \<and>
      positions (integrate pair_params s') ! 0 = (1 / 10, 8 / 10) \<and>
      velocities (integrate pair_params s') ! 0 = (0, 0))"
proof -
  have h1: "shaped pair_params stretched_pair" by (rule shaped_stretched_pair)
  have h2: "2 \<le> n_particles pair_params" by (simp add: pair_params_fields)
  have h3: "inv_mass stretched_pair ! 0 = 0" by (simp add: stretched_pair_fields)
  have h4: "eps < seg_length stretched_pair 0"
    by (simp add: seg_length_stretched_pair eps_def)
  show ?thesis
    using h1 h2 h3 h4 pinned_force_accumulator [OF h1 h2 h3]
    by (auto simp: spring_force_stretched_pair damping_force_stretched_pair
        stretched_pair_fields vadd_def)
qed

end
